theory Spec2Isabelle
  imports Main "HOL-Library.Sublist"
begin

section \<open>Text\<close>

text \<open>
  A Python \<^verbatim>\<open>str\<close> is a sequence of Unicode code points. Isabelle's \<open>char\<close> has only
  256 values, so text is a list of code point numbers; \<open>codes\<close> reads an ASCII literal.
\<close>

type_synonym ustring = "nat list"

definition codes :: "string \<Rightarrow> ustring" where
  "codes s = map of_char s"

definition is_ascii :: "nat \<Rightarrow> bool" where
  "is_ascii c = (c < 128)"

definition is_digit :: "nat \<Rightarrow> bool" where
  "is_digit c = (48 \<le> c \<and> c \<le> 57)"

definition is_upper :: "nat \<Rightarrow> bool" where
  "is_upper c = (65 \<le> c \<and> c \<le> 90)"

definition is_lower :: "nat \<Rightarrow> bool" where
  "is_lower c = (97 \<le> c \<and> c \<le> 122)"

section \<open>slugify\<close>

text \<open>
  Both scripts define the same function:
  \<^verbatim>\<open>
  def slugify(value):
      value = unicodedata.normalize('NFKD', value).encode('ascii', 'ignore').decode('ascii').lower()
      return re.sub(r'[\W_]+', '-', value)
  \<close>
  \<^verbatim>\<open>unicodedata.normalize('NFKD', _)\<close> reads the Unicode Character Database of the Python
  installation, which is no part of the repository: it is the parameter \<open>nfkd\<close> of every
  function that calls it.
\<close>

type_synonym normalizer = "ustring \<Rightarrow> ustring"

text \<open>\<^verbatim>\<open>.encode('ascii', 'ignore').decode('ascii')\<close>: code points from 128 on are dropped.\<close>

definition encode_ascii_ignore :: "ustring \<Rightarrow> ustring" where
  "encode_ascii_ignore value = filter is_ascii value"

text \<open>\<^verbatim>\<open>.lower()\<close>, which is called on ASCII text only.\<close>

definition lower_char :: "nat \<Rightarrow> nat" where
  "lower_char c = (if is_upper c then c + 32 else c)"

definition lower :: "ustring \<Rightarrow> ustring" where
  "lower value = map lower_char value"

text \<open>The first line of \<^verbatim>\<open>slugify\<close>: decomposition, ASCII fold, lower case.\<close>

definition normalize_text :: "normalizer \<Rightarrow> ustring \<Rightarrow> ustring" where
  "normalize_text nfkd value = lower (encode_ascii_ignore (nfkd value))"

text \<open>
  \<^verbatim>\<open>\w\<close> on ASCII text is \<^verbatim>\<open>[a-zA-Z0-9_]\<close>; the character class \<^verbatim>\<open>[\W_]\<close> is its
  complement together with the underscore. The pattern is applied to the result of
  \<open>normalize_text\<close>, which is ASCII.
\<close>

definition is_word :: "nat \<Rightarrow> bool" where
  "is_word c = (is_digit c \<or> is_upper c \<or> is_lower c \<or> c = 95)"

definition in_class :: "nat \<Rightarrow> bool" where
  "in_class c = (\<not> is_word c \<or> c = 95)"

text \<open>
  \<^verbatim>\<open>re.sub(r'[\W_]+', '-', value)\<close>: scanning from the left, every maximal run of
  characters of the class is replaced by one hyphen (code point 45).
\<close>

function re_sub :: "ustring \<Rightarrow> ustring" where
  "re_sub [] = []"
| "re_sub (c # cs) =
     (if in_class c then 45 # re_sub (dropWhile in_class cs) else c # re_sub cs)"
  by pat_completeness auto
termination
  by (relation "measure length") (auto simp: less_Suc_eq_le length_dropWhile_le)

definition slugify :: "normalizer \<Rightarrow> ustring \<Rightarrow> ustring" where
  "slugify nfkd value = re_sub (normalize_text nfkd value)"

text \<open>
  An excerpt of the decomposition table, enough to run the functions on the texts of the
  two scripts and on ideographs: U+00EA (e with circumflex) decomposes into U+0065 U+0302;
  ASCII characters and the CJK unified ideographs (U+4E00 to U+9FFF) have no decomposition.
  It is used on such texts only; the theorems about all texts hold for every \<open>nfkd\<close>.
\<close>

definition decomposition :: "nat \<Rightarrow> nat list" where
  "decomposition c = (if c = 0xEA then [0x65, 0x302] else [c])"

definition nfkd_excerpt :: normalizer where
  "nfkd_excerpt value = concat (map decomposition value)"

text \<open>What the Unicode standard guarantees for ASCII text: it is its own normal form.\<close>

definition ascii_stable :: "normalizer \<Rightarrow> bool" where
  "ascii_stable nfkd = (\<forall>u. list_all is_ascii u \<longrightarrow> nfkd u = u)"

section \<open>The slug grammar of the specification\<close>

text \<open>
  The regular expression \<^verbatim>\<open>^[a-z0-9]+(-[a-z0-9]+)*$\<close>, as a matcher: \<open>slug_regex\<close> expects
  the first character of a group, \<open>slug_regex_rest\<close> runs inside a group.
\<close>

definition is_slug_alnum :: "nat \<Rightarrow> bool" where
  "is_slug_alnum c = (is_lower c \<or> is_digit c)"

fun slug_regex :: "ustring \<Rightarrow> bool" and slug_regex_rest :: "ustring \<Rightarrow> bool" where
  "slug_regex [] = False"
| "slug_regex (c # cs) = (is_slug_alnum c \<and> slug_regex_rest cs)"
| "slug_regex_rest [] = True"
| "slug_regex_rest (c # cs) =
     (if c = 45 then slug_regex cs else is_slug_alnum c \<and> slug_regex_rest cs)"

definition is_slug_char :: "nat \<Rightarrow> bool" where
  "is_slug_char c = (is_slug_alnum c \<or> c = 45)"

fun doubled_hyphen :: "ustring \<Rightarrow> bool" where
  "doubled_hyphen (a # b # cs) = ((a = 45 \<and> b = 45) \<or> doubled_hyphen (b # cs))"
| "doubled_hyphen _ = False"

section \<open>Records and flashcards\<close>

text \<open>
  A record of a table is a Python dict from field names to text. Subscripting with a key
  the dict does not have raises \<^verbatim>\<open>KeyError\<close>, which nothing in the scripts catches.
\<close>

type_synonym dict = "string \<rightharpoonup> ustring"

datatype error = KeyError string

definition getitem :: "dict \<Rightarrow> string \<Rightarrow> error + ustring" where
  "getitem d k = (case d k of None \<Rightarrow> Inl (KeyError k) | Some v \<Rightarrow> Inr v)"

text \<open>
  The f-string of \<^verbatim>\<open>en-irregular-verbs.py\<close>, its replacement fields evaluated from left to
  right:
  \<^verbatim>\<open>
  f"""
  ## Flashcard: {verb["base"]}

  `@slug: {slugify("em-irregular-verb-" + verb["base"])}`

  (Irregular Verb) {verb["base"]}

  ---

  {verb["past_tense"]} / {verb["past_participle"]}
  """
  \<close>
\<close>

definition verb_flashcard :: "normalizer \<Rightarrow> dict \<Rightarrow> error + ustring" where
  "verb_flashcard nfkd verb =
     (case getitem verb ''base'' of Inl e \<Rightarrow> Inl e | Inr base \<Rightarrow>
     (case getitem verb ''past_tense'' of Inl e \<Rightarrow> Inl e | Inr past_tense \<Rightarrow>
     (case getitem verb ''past_participle'' of Inl e \<Rightarrow> Inl e | Inr past_participle \<Rightarrow>
        Inr (codes ''\<newline>## Flashcard: '' @ base
           @ codes ''\<newline>\<newline>`@slug: '' @ slugify nfkd (codes ''em-irregular-verb-'' @ base)
           @ codes ''`\<newline>\<newline>(Irregular Verb) '' @ base
           @ codes ''\<newline>\<newline>---\<newline>\<newline>'' @ past_tense @ codes '' / '' @ past_participle
           @ codes ''\<newline>''))))"

text \<open>
  The f-string of \<^verbatim>\<open>expression.py\<close>; code point 34 is the double quote:
  \<^verbatim>\<open>
  f"""
  ## Flashcard: {expr["en-en"]}

  `@slug: {slugify(expr["en-en"])}`

  (Expression) **Translate**

  _<span class="foreign">{expr["en-en"]}</span>_

  ---

  _<span class="native">{expr["fr-fr"]}</span>_

  """
  \<close>
\<close>

definition expression_flashcard :: "normalizer \<Rightarrow> dict \<Rightarrow> error + ustring" where
  "expression_flashcard nfkd expr =
     (case getitem expr ''en-en'' of Inl e \<Rightarrow> Inl e | Inr en \<Rightarrow>
     (case getitem expr ''fr-fr'' of Inl e \<Rightarrow> Inl e | Inr fr \<Rightarrow>
        Inr (codes ''\<newline>## Flashcard: '' @ en
           @ codes ''\<newline>\<newline>`@slug: '' @ slugify nfkd en
           @ codes ''`\<newline>\<newline>(Expression) **Translate**\<newline>\<newline>_<span class=''
           @ [34] @ codes ''foreign'' @ [34] @ codes ''>'' @ en
           @ codes ''</span>_\<newline>\<newline>---\<newline>\<newline>_<span class=''
           @ [34] @ codes ''native'' @ [34] @ codes ''>'' @ fr
           @ codes ''</span>_\<newline>\<newline>'')))"

text \<open>
  \<^verbatim>\<open>for r in TABLE: print(f"""...""")\<close>. Standard output is the list of the texts written
  so far, one per call of \<^verbatim>\<open>print\<close>, which ends each with a newline. The loop returns the
  output and the exception that ended the script, if any: a record that raises writes
  nothing, and no record after it is reached.
\<close>

definition println :: "ustring \<Rightarrow> ustring" where
  "println s = s @ [10]"

fun print_flashcards ::
  "(dict \<Rightarrow> error + ustring) \<Rightarrow> dict list \<Rightarrow> ustring list \<Rightarrow> ustring list \<times> error option"
where
  "print_flashcards flashcard [] out = (out, None)"
| "print_flashcards flashcard (r # rs) out =
     (case flashcard r of
        Inl e \<Rightarrow> (out, Some e)
      | Inr s \<Rightarrow> print_flashcards flashcard rs (out @ [println s]))"

definition irregular_verbs_main :: "normalizer \<Rightarrow> dict list \<Rightarrow> ustring list \<times> error option" where
  "irregular_verbs_main nfkd verbs = print_flashcards (verb_flashcard nfkd) verbs []"

definition expression_main :: "normalizer \<Rightarrow> dict list \<Rightarrow> ustring list \<times> error option" where
  "expression_main nfkd exprs = print_flashcards (expression_flashcard nfkd) exprs []"

text \<open>The tables of the two scripts.\<close>

definition IRREGULAR_VERBS :: "dict list" where
  "IRREGULAR_VERBS =
     [[''base'' \<mapsto> codes ''be'', ''past_tense'' \<mapsto> codes ''was/were'',
       ''past_participle'' \<mapsto> codes ''been''],
      [''base'' \<mapsto> codes ''have'', ''past_tense'' \<mapsto> codes ''had'',
       ''past_participle'' \<mapsto> codes ''had'']]"

text \<open>The French phrase of \<^verbatim>\<open>EXPRESSIONS\<close>; its first character is U+00EA.\<close>

definition marteau_enclume :: ustring where
  "marteau_enclume = 0xEA # codes ''tre pris entre le marteau et l'enclume''"

definition EXPRESSIONS :: "dict list" where
  "EXPRESSIONS =
     [[''en-en'' \<mapsto> codes ''be caught between a rock and a hard place'',
       ''fr-fr'' \<mapsto> marteau_enclume]]"

section \<open>Further tables\<close>

text \<open>
  Tables the scripts could hold as well: a third verb; two titles that differ by case and
  punctuation only; a title of two ideographs (U+4E2D U+6587).
\<close>

definition three_verbs :: "dict list" where
  "three_verbs = IRREGULAR_VERBS @
     [[''base'' \<mapsto> codes ''go'', ''past_tense'' \<mapsto> codes ''went'',
       ''past_participle'' \<mapsto> codes ''gone'']]"

definition rock_verbs :: "dict list" where
  "rock_verbs =
     [[''base'' \<mapsto> codes ''Rock-Solid'', ''past_tense'' \<mapsto> codes ''a'',
       ''past_participle'' \<mapsto> codes ''b''],
      [''base'' \<mapsto> codes ''rock solid'', ''past_tense'' \<mapsto> codes ''c'',
       ''past_participle'' \<mapsto> codes ''d'']]"

definition rock_expressions :: "dict list" where
  "rock_expressions =
     [[''en-en'' \<mapsto> codes ''Rock-Solid'', ''fr-fr'' \<mapsto> codes ''solide''],
      [''en-en'' \<mapsto> codes ''rock solid'', ''fr-fr'' \<mapsto> codes ''du roc'']]"

definition zhongwen :: ustring where
  "zhongwen = [0x4E2D, 0x6587]"

definition ideograph_expressions :: "dict list" where
  "ideograph_expressions = [[''en-en'' \<mapsto> zhongwen, ''fr-fr'' \<mapsto> codes ''chinois'']]"

text \<open>
  The flashcards to compare the output of the scripts with, written out. Each is the
  value of the f-string; \<^verbatim>\<open>print\<close> adds its newline.
\<close>

definition be_flashcard :: ustring where
  "be_flashcard =
     codes ''\<newline>## Flashcard: be\<newline>\<newline>`@slug: em-irregular-verb-be`\<newline>\<newline>''
     @ codes ''(Irregular Verb) be\<newline>\<newline>---\<newline>\<newline>was/were / been\<newline>''"

definition have_flashcard :: ustring where
  "have_flashcard =
     codes ''\<newline>## Flashcard: have\<newline>\<newline>`@slug: em-irregular-verb-have`\<newline>\<newline>''
     @ codes ''(Irregular Verb) have\<newline>\<newline>---\<newline>\<newline>had / had\<newline>''"

definition go_flashcard :: ustring where
  "go_flashcard =
     codes ''\<newline>## Flashcard: go\<newline>\<newline>`@slug: em-irregular-verb-go`\<newline>\<newline>''
     @ codes ''(Irregular Verb) go\<newline>\<newline>---\<newline>\<newline>went / gone\<newline>''"

definition caught_flashcard :: ustring where
  "caught_flashcard =
     codes ''\<newline>## Flashcard: be caught between a rock and a hard place''
     @ codes ''\<newline>\<newline>`@slug: be-caught-between-a-rock-and-a-hard-place`\<newline>\<newline>''
     @ codes ''(Expression) **Translate**\<newline>\<newline>''
     @ codes ''_<span class='' @ [34] @ codes ''foreign'' @ [34] @ codes ''>be caught between a rock and a hard place''
     @ codes ''</span>_\<newline>\<newline>---\<newline>\<newline>''
     @ codes ''_<span class='' @ [34] @ codes ''native'' @ [34] @ codes ''>'' @ marteau_enclume
     @ codes ''</span>_\<newline>\<newline>''"

definition rock_verb_flashcards :: "ustring list" where
  "rock_verb_flashcards =
    [codes ''\<newline>## Flashcard: Rock-Solid\<newline>\<newline>`@slug: em-irregular-verb-rock-solid`\<newline>\<newline>''
     @ codes ''(Irregular Verb) Rock-Solid\<newline>\<newline>---\<newline>\<newline>a / b\<newline>'',
     codes ''\<newline>## Flashcard: rock solid\<newline>\<newline>`@slug: em-irregular-verb-rock-solid`\<newline>\<newline>''
     @ codes ''(Irregular Verb) rock solid\<newline>\<newline>---\<newline>\<newline>c / d\<newline>'']"

definition rock_expression_flashcards :: "ustring list" where
  "rock_expression_flashcards =
    [codes ''\<newline>## Flashcard: Rock-Solid''
     @ codes ''\<newline>\<newline>`@slug: rock-solid`\<newline>\<newline>''
     @ codes ''(Expression) **Translate**\<newline>\<newline>''
     @ codes ''_<span class='' @ [34] @ codes ''foreign'' @ [34] @ codes ''>Rock-Solid''
     @ codes ''</span>_\<newline>\<newline>---\<newline>\<newline>''
     @ codes ''_<span class='' @ [34] @ codes ''native'' @ [34] @ codes ''>solide''
     @ codes ''</span>_\<newline>\<newline>'',
     codes ''\<newline>## Flashcard: rock solid''
     @ codes ''\<newline>\<newline>`@slug: rock-solid`\<newline>\<newline>''
     @ codes ''(Expression) **Translate**\<newline>\<newline>''
     @ codes ''_<span class='' @ [34] @ codes ''foreign'' @ [34] @ codes ''>rock solid''
     @ codes ''</span>_\<newline>\<newline>---\<newline>\<newline>''
     @ codes ''_<span class='' @ [34] @ codes ''native'' @ [34] @ codes ''>du roc''
     @ codes ''</span>_\<newline>\<newline>'']"

definition zhongwen_flashcard :: ustring where
  "zhongwen_flashcard =
     codes ''\<newline>## Flashcard: '' @ zhongwen
     @ codes ''\<newline>\<newline>`@slug: `\<newline>\<newline>''
     @ codes ''(Expression) **Translate**\<newline>\<newline>''
     @ codes ''_<span class='' @ [34] @ codes ''foreign'' @ [34] @ codes ''>'' @ zhongwen
     @ codes ''</span>_\<newline>\<newline>---\<newline>\<newline>''
     @ codes ''_<span class='' @ [34] @ codes ''native'' @ [34] @ codes ''>chinois''
     @ codes ''</span>_\<newline>\<newline>''"

section \<open>Reading a flashcard\<close>

text \<open>
  A flashcard carries a title and a slug when it opens with the title line, a blank line
  and the slug line; it ends with a back content when its last lines are the separator
  line, a blank line and that content.
\<close>

definition carries_slug :: "ustring \<Rightarrow> ustring \<Rightarrow> ustring \<Rightarrow> bool" where
  "carries_slug title slug flashcard =
     prefix (codes ''\<newline>## Flashcard: '' @ title
     @ codes ''\<newline>\<newline>`@slug: '' @ slug
             @ codes ''`\<newline>'') flashcard"

definition ends_with_back :: "ustring \<Rightarrow> ustring \<Rightarrow> bool" where
  "ends_with_back back flashcard =
     suffix (codes ''\<newline>---\<newline>\<newline>'' @ back @ codes ''\<newline>'') flashcard"

text \<open>The normalized texts whose slug is in the grammar: not empty, a letter or digit at
  both ends.\<close>

definition word_bounded :: "ustring \<Rightarrow> bool" where
  "word_bounded n = (n \<noteq> [] \<and> \<not> in_class (hd n) \<and> \<not> in_class (last n))"

section \<open>Properties of the substitution\<close>

lemmas char_defs = is_ascii_def is_digit_def is_upper_def is_lower_def is_word_def
  in_class_def is_slug_alnum_def is_slug_char_def lower_char_def

lemma in_class_hyphen: "in_class 45"
  by (simp add: char_defs)

text \<open>Every character of the result is a hyphen or a character the scan kept.\<close>

lemma re_sub_set: "set (re_sub xs) \<subseteq> insert 45 {c \<in> set xs. \<not> in_class c}"
proof (induction xs rule: re_sub.induct)
  case 1
  show ?case by simp
next
  case (2 c cs)
  show ?case
  proof (cases "in_class c")
    case True
    with 2 show ?thesis by (auto dest: set_dropWhileD)
  next
    case False
    with 2 show ?thesis by auto
  qed
qed

lemma re_sub_starts_with_hyphen: "re_sub ys = 45 # zs \<Longrightarrow> ys \<noteq> [] \<and> in_class (hd ys)"
  by (cases ys) (auto simp: in_class_hyphen split: if_splits)

lemma dropWhile_Cons_hd: "dropWhile P xs = y # ys \<Longrightarrow> \<not> P y"
  by (metis hd_dropWhile list.sel(1) list.distinct(1))

lemma last_dropWhile: "dropWhile P xs \<noteq> [] \<Longrightarrow> last (dropWhile P xs) = last xs"
  by (induction xs) (auto split: if_splits)

lemma doubled_hyphen_Cons:
  "doubled_hyphen (c # cs) = ((cs \<noteq> [] \<and> c = 45 \<and> hd cs = 45) \<or> doubled_hyphen cs)"
  by (cases cs) auto

text \<open>A run is replaced by one hyphen, and what follows a run is no member of the class.\<close>

lemma re_sub_no_doubled: "\<not> doubled_hyphen (re_sub xs)"
proof (induction xs rule: re_sub.induct)
  case 1
  show ?case by simp
next
  case (2 c cs)
  show ?case
  proof (cases "in_class c")
    case True
    with 2 have ih: "\<not> doubled_hyphen (re_sub (dropWhile in_class cs))" by simp
    show ?thesis
    proof (cases "re_sub (dropWhile in_class cs)")
      case Nil
      with True show ?thesis by simp
    next
      case (Cons z zs)
      have "z \<noteq> 45"
      proof
        assume "z = 45"
        with Cons have "dropWhile in_class cs \<noteq> [] \<and> in_class (hd (dropWhile in_class cs))"
          using re_sub_starts_with_hyphen by blast
        then show False by (metis hd_dropWhile)
      qed
      with True Cons ih show ?thesis by simp
    qed
  next
    case False
    with 2 have ih: "\<not> doubled_hyphen (re_sub cs)" by simp
    from False have "c \<noteq> 45" using in_class_hyphen by auto
    with False ih show ?thesis by (cases "re_sub cs") auto
  qed
qed

text \<open>Substituting twice changes nothing more.\<close>

lemma re_sub_idem: "re_sub (re_sub xs) = re_sub xs"
proof (induction xs rule: re_sub.induct)
  case 1
  show ?case by simp
next
  case (2 c cs)
  show ?case
  proof (cases "in_class c")
    case True
    with 2 have ih: "re_sub (re_sub (dropWhile in_class cs)) = re_sub (dropWhile in_class cs)"
      by simp
    have "dropWhile in_class (re_sub (dropWhile in_class cs)) = re_sub (dropWhile in_class cs)"
    proof (cases "dropWhile in_class cs")
      case Nil
      show ?thesis unfolding Nil by simp
    next
      case (Cons y ys)
      then have "\<not> in_class y" by (rule dropWhile_Cons_hd)
      then show ?thesis unfolding Cons by simp
    qed
    with True ih show ?thesis by (simp add: in_class_hyphen)
  next
    case False
    with 2 show ?thesis by simp
  qed
qed

lemma re_sub_Nil_iff: "re_sub n = [] \<longleftrightarrow> n = []"
  by (cases n) auto

lemma re_sub_hd_eq: "n \<noteq> [] \<Longrightarrow> hd (re_sub n) = (if in_class (hd n) then 45 else hd n)"
  by (cases n) auto

lemma re_sub_last_eq:
  "n \<noteq> [] \<Longrightarrow> last (re_sub n) = (if in_class (last n) then 45 else last n)"
proof (induction n rule: re_sub.induct)
  case 1
  then show ?case by simp
next
  case (2 c cs)
  show ?case
  proof (cases "in_class c")
    case True
    show ?thesis
    proof (cases "dropWhile in_class cs = []")
      case True
      then have all: "\<forall>x\<in>set cs. in_class x" by simp
      have "in_class (last (c # cs))"
      proof (cases "cs = []")
        case True
        with \<open>in_class c\<close> show ?thesis by simp
      next
        case False
        with all show ?thesis by simp
      qed
      moreover have "re_sub (c # cs) = [45]"
        using \<open>in_class c\<close> True by (simp del: dropWhile_eq_Nil_conv)
      ultimately show ?thesis by simp
    next
      case False
      then have ne: "cs \<noteq> []" by auto
      from False have l: "last (dropWhile in_class cs) = last cs" by (rule last_dropWhile)
      from 2(1)[OF True False] l True False ne show ?thesis
        by (simp add: re_sub_Nil_iff del: dropWhile_eq_Nil_conv)
    qed
  next
    case False
    with 2 show ?thesis by (cases "cs = []") (auto simp: re_sub_Nil_iff)
  qed
qed

section \<open>Properties of slugify\<close>

lemma normalize_text_chars:
  "c \<in> set (normalize_text nfkd t) \<Longrightarrow> is_ascii c \<and> \<not> is_upper c"
  by (auto simp: normalize_text_def lower_def encode_ascii_ignore_def char_defs)

lemma slug_alnum_of_normalized:
  "is_ascii c \<and> \<not> is_upper c \<Longrightarrow> \<not> in_class c \<Longrightarrow> is_slug_alnum c"
  by (auto simp: char_defs)

lemma slugify_slug_chars: "list_all is_slug_char (slugify nfkd t)"
proof -
  have "is_slug_char c" if "c \<in> set (slugify nfkd t)" for c
  proof -
    from that re_sub_set
    have "c = 45 \<or> (c \<in> set (normalize_text nfkd t) \<and> \<not> in_class c)"
      unfolding slugify_def by blast
    then show ?thesis
      using normalize_text_chars slug_alnum_of_normalized
      by (auto simp: is_slug_char_def)
  qed
  then show ?thesis by (simp add: list_all_iff)
qed

text \<open>The matcher accepts the non-empty texts over the slug characters that neither
  begin nor end with a hyphen and double none.\<close>

lemma slug_regex_iff:
  "slug_regex s \<longleftrightarrow>
     s \<noteq> [] \<and> list_all is_slug_char s \<and> hd s \<noteq> 45 \<and> last s \<noteq> 45 \<and> \<not> doubled_hyphen s"
  "slug_regex_rest s \<longleftrightarrow>
     list_all is_slug_char s \<and> (s \<noteq> [] \<longrightarrow> last s \<noteq> 45) \<and> \<not> doubled_hyphen s"
  by (induction s rule: slug_regex_slug_regex_rest.induct)
    (auto simp: char_defs doubled_hyphen_Cons simp del: doubled_hyphen.simps(1))

lemma slug_regex_re_sub:
  assumes "list_all is_slug_char (re_sub n)"
  shows "slug_regex (re_sub n) \<longleftrightarrow> word_bounded n"
proof (cases "n = []")
  case True
  then show ?thesis by (simp add: word_bounded_def)
next
  case False
  have h: "hd (re_sub n) \<noteq> 45 \<longleftrightarrow> \<not> in_class (hd n)"
    using False in_class_hyphen by (auto simp: re_sub_hd_eq)
  have l: "last (re_sub n) \<noteq> 45 \<longleftrightarrow> \<not> in_class (last n)"
    using False in_class_hyphen by (auto simp: re_sub_last_eq)
  show ?thesis
    using False assms h l re_sub_no_doubled [of n]
    by (simp add: slug_regex_iff(1) word_bounded_def re_sub_Nil_iff)
qed

text \<open>Text over the slug characters passes the first line of \<open>slugify\<close> unchanged.\<close>

lemma normalize_text_slug_chars:
  assumes "list_all is_slug_char s" and "ascii_stable nfkd"
  shows "normalize_text nfkd s = s"
proof -
  from assms(1) have a: "list_all is_ascii s"
    by (induction s) (auto simp: char_defs)
  with assms(2) have "nfkd s = s" by (simp add: ascii_stable_def)
  moreover from a have "encode_ascii_ignore s = s"
    by (simp add: encode_ascii_ignore_def list_all_iff)
  moreover from assms(1) have "lower s = s"
    by (induction s) (auto simp: lower_def char_defs)
  ultimately show ?thesis by (simp add: normalize_text_def)
qed

lemma nfkd_excerpt_ascii: "ascii_stable nfkd_excerpt"
proof -
  have "nfkd_excerpt u = u" if "list_all is_ascii u" for u
    using that by (induction u) (auto simp: nfkd_excerpt_def decomposition_def is_ascii_def)
  then show ?thesis by (simp add: ascii_stable_def)
qed

section \<open>Properties of the scripts\<close>

lemmas eval_defs = slugify_def normalize_text_def lower_def encode_ascii_ignore_def
  nfkd_excerpt_def decomposition_def codes_def char_defs

lemmas script_defs = getitem_def verb_flashcard_def expression_flashcard_def println_def
  irregular_verbs_main_def expression_main_def

text \<open>When every record has its flashcard, the loop writes them all, in order.\<close>

lemma print_flashcards_all:
  "map flashcard rs = map Inr bs \<Longrightarrow>
   print_flashcards flashcard rs out = (out @ map println bs, None)"
proof (induction rs arbitrary: bs out)
  case Nil
  then show ?case by simp
next
  case (Cons r rs)
  then obtain b bs' where bs: "bs = b # bs'" and b: "flashcard r = Inr b"
    and rest: "map flashcard rs = map Inr bs'"
    by (cases bs) auto
  from Cons.IH [OF rest] b bs show ?case by simp
qed

text \<open>The first record without a flashcard ends the script: what was written before it
  stays, its exception is the result, and the records after it are not reached.\<close>

lemma print_flashcards_raises:
  "map flashcard rs = map Inr bs \<Longrightarrow> flashcard r = Inl e \<Longrightarrow>
   print_flashcards flashcard (rs @ r # rest) out = (out @ map println bs, Some e)"
proof (induction rs arbitrary: bs out)
  case Nil
  then show ?case by simp
next
  case (Cons a rs)
  then obtain b bs' where bs: "bs = b # bs'" and b: "flashcard a = Inr b"
    and rest: "map flashcard rs = map Inr bs'"
    by (cases bs) auto
  from Cons.IH [OF rest Cons.prems(2)] b bs show ?case by simp
qed

lemma nth_of_map_Inr:
  "map f rs = map Inr bs \<Longrightarrow> i < length rs \<Longrightarrow> f (rs ! i) = Inr (bs ! i)"
  by (metis length_map nth_map)

lemma verb_flashcard_eq:
  assumes "verb ''base'' = Some b" and "verb ''past_tense'' = Some pt"
    and "verb ''past_participle'' = Some pp"
  shows "verb_flashcard nfkd verb =
    Inr (codes ''\<newline>## Flashcard: '' @ b
       @ codes ''\<newline>\<newline>`@slug: '' @ slugify nfkd (codes ''em-irregular-verb-'' @ b)
       @ codes ''`\<newline>\<newline>(Irregular Verb) '' @ b
       @ codes ''\<newline>\<newline>---\<newline>\<newline>'' @ pt @ codes '' / '' @ pp
       @ codes ''\<newline>'')"
  using assms by (simp add: verb_flashcard_def getitem_def)

lemma expression_flashcard_eq:
  assumes "expr ''en-en'' = Some en" and "expr ''fr-fr'' = Some fr"
  shows "expression_flashcard nfkd expr =
    Inr (codes ''\<newline>## Flashcard: '' @ en
       @ codes ''\<newline>\<newline>`@slug: '' @ slugify nfkd en
       @ codes ''`\<newline>\<newline>(Expression) **Translate**\<newline>\<newline>_<span class=''
       @ [34] @ codes ''foreign'' @ [34] @ codes ''>'' @ en
       @ codes ''</span>_\<newline>\<newline>---\<newline>\<newline>_<span class=''
       @ [34] @ codes ''native'' @ [34] @ codes ''>'' @ fr
       @ codes ''</span>_\<newline>\<newline>'')"
  using assms by (simp add: expression_flashcard_def getitem_def)

lemma verb_flashcard_Inr:
  assumes "verb_flashcard nfkd verb = Inr fc" and "verb ''base'' = Some b"
  shows "carries_slug b (slugify nfkd (codes ''em-irregular-verb-'' @ b)) fc"
proof -
  from assms obtain pt pp
    where "verb ''past_tense'' = Some pt" "verb ''past_participle'' = Some pp"
    by (auto simp: verb_flashcard_def getitem_def split: option.splits)
  from verb_flashcard_eq [OF assms(2) this, of nfkd] assms(1)
  show ?thesis by (auto simp: carries_slug_def codes_def)
qed

lemma expression_flashcard_Inr:
  assumes "expression_flashcard nfkd expr = Inr fc" and "expr ''en-en'' = Some en"
  shows "carries_slug en (slugify nfkd en) fc"
proof -
  from assms obtain fr where "expr ''fr-fr'' = Some fr"
    by (auto simp: expression_flashcard_def getitem_def split: option.splits)
  from expression_flashcard_eq [OF assms(2) this, of nfkd] assms(1)
  show ?thesis by (auto simp: carries_slug_def codes_def)
qed

section \<open>The claims\<close>

lemmas table_defs = IRREGULAR_VERBS_def EXPRESSIONS_def marteau_enclume_def three_verbs_def
  rock_verbs_def rock_expressions_def zhongwen_def ideograph_expressions_def

lemmas flashcard_defs = be_flashcard_def have_flashcard_def go_flashcard_def
  caught_flashcard_def rock_verb_flashcards_def rock_expression_flashcards_def
  zhongwen_flashcard_def

text \<open>
  Claim C1, corrected. For every text and every decomposition function, the slug holds
  lower-case ASCII letters, digits and hyphens only, and never two hyphens in a row. It
  matches \<^verbatim>\<open>^[a-z0-9]+(-[a-z0-9]+)*$\<close> exactly when the text left by the first line of
  \<^verbatim>\<open>slugify\<close> is not empty and has a letter or digit at both ends. A slug that does not
  match is empty or has a hyphen in front or behind, and \<^verbatim>\<open>slugify\<close> returns it like any
  other.
\<close>

theorem slugify_charset:
  "list_all is_slug_char (slugify nfkd t) \<and> \<not> doubled_hyphen (slugify nfkd t) \<and>
   (slug_regex (slugify nfkd t) \<longleftrightarrow> word_bounded (normalize_text nfkd t)) \<and>
   (slug_regex (slugify nfkd t) \<or> slugify nfkd t = [] \<or>
    hd (slugify nfkd t) = 45 \<or> last (slugify nfkd t) = 45)"
proof -
  have chars: "list_all is_slug_char (slugify nfkd t)"
    by (rule slugify_slug_chars)
  have single: "\<not> doubled_hyphen (slugify nfkd t)"
    by (simp add: slugify_def re_sub_no_doubled)
  have "slug_regex (slugify nfkd t) \<longleftrightarrow> word_bounded (normalize_text nfkd t)"
    using chars slug_regex_re_sub [of "normalize_text nfkd t"] by (simp add: slugify_def)
  moreover have "slug_regex (slugify nfkd t) \<or> slugify nfkd t = [] \<or>
      hd (slugify nfkd t) = 45 \<or> last (slugify nfkd t) = 45"
    using chars single by (auto simp: slug_regex_iff(1))
  ultimately show ?thesis using chars single by simp
qed

theorem slugify_charset_witness:
  "list_all is_slug_char (slugify nfkd_excerpt (codes ''Rock-Solid'')) \<and>
   \<not> doubled_hyphen (slugify nfkd_excerpt (codes ''Rock-Solid'')) \<and>
   slug_regex (slugify nfkd_excerpt (codes ''Rock-Solid''))"
  using slugify_charset [of nfkd_excerpt "codes ''Rock-Solid''"]
  by (simp add: word_bounded_def normalize_text_def lower_def encode_ascii_ignore_def
      nfkd_excerpt_def decomposition_def codes_def char_defs)

theorem slugify_hyphen_at_the_ends:
  "slugify nfkd_excerpt (codes '' rock solid!'') = codes ''-rock-solid-'' \<and>
   \<not> slug_regex (slugify nfkd_excerpt (codes '' rock solid!''))"
  by (simp add: eval_defs)

text \<open>
  Claim C2, corrected. Let a table of expressions be given in which every record has its
  flashcard, and a record of it whose title decomposes into code points beyond ASCII only.
  The slug of that record is empty, the script ends without an exception after writing the
  flashcard of every record, and the flashcard of that record carries the empty slug.
\<close>

theorem empty_slug_is_printed:
  assumes "map (expression_flashcard nfkd) exprs = map Inr es" and "i < length exprs"
    and "(exprs ! i) ''en-en'' = Some s" and "encode_ascii_ignore (nfkd s) = []"
  shows "slugify nfkd s = [] \<and> expression_main nfkd exprs = (map println es, None) \<and>
         carries_slug s [] (es ! i)"
proof -
  from assms(4) have s: "slugify nfkd s = []"
    by (simp add: slugify_def normalize_text_def lower_def)
  have "expression_flashcard nfkd (exprs ! i) = Inr (es ! i)"
    using assms(1,2) by (rule nth_of_map_Inr)
  then have "carries_slug s (slugify nfkd s) (es ! i)"
    using assms(3) by (rule expression_flashcard_Inr)
  moreover have "expression_main nfkd exprs = (map println es, None)"
    using print_flashcards_all [OF assms(1), of "[]"] by (simp add: expression_main_def)
  ultimately show ?thesis using s by simp
qed

theorem empty_slug_is_printed_witness:
  "slugify nfkd_excerpt zhongwen = [] \<and>
   expression_main nfkd_excerpt ideograph_expressions = ([println zhongwen_flashcard], None) \<and>
   carries_slug zhongwen [] zhongwen_flashcard"
  using empty_slug_is_printed [of nfkd_excerpt ideograph_expressions "[zhongwen_flashcard]"
      0 zhongwen]
  by (simp add: table_defs flashcard_defs script_defs eval_defs)

theorem ideographs_raise_nothing:
  "zhongwen \<noteq> [] \<and> normalize_text nfkd_excerpt zhongwen = [] \<and>
   expression_flashcard nfkd_excerpt (hd ideograph_expressions) = Inr zhongwen_flashcard \<and>
   expression_main nfkd_excerpt ideograph_expressions = ([println zhongwen_flashcard], None)"
  by (simp add: table_defs flashcard_defs script_defs eval_defs)

text \<open>
  Claim C3, corrected. Let a table be given in which every record has its flashcard, and
  two records of it whose slugs are equal. Either script ends without an exception after
  writing the flashcard of every record, in order, and the flashcards of the two records
  carry the same slug under their own titles.
\<close>

theorem equal_slugs_are_printed:
  "(map (verb_flashcard nfkd) verbs = map Inr vs \<and> i < j \<and> j < length verbs \<and>
    (verbs ! i) ''base'' = Some ba \<and> (verbs ! j) ''base'' = Some bb \<and>
    slugify nfkd (codes ''em-irregular-verb-'' @ ba) =
      slugify nfkd (codes ''em-irregular-verb-'' @ bb)
    \<longrightarrow> irregular_verbs_main nfkd verbs = (map println vs, None) \<and>
        carries_slug ba (slugify nfkd (codes ''em-irregular-verb-'' @ ba)) (vs ! i) \<and>
        carries_slug bb (slugify nfkd (codes ''em-irregular-verb-'' @ ba)) (vs ! j)) \<and>
   (map (expression_flashcard nfkd) exprs = map Inr es \<and> k < l \<and> l < length exprs \<and>
    (exprs ! k) ''en-en'' = Some sa \<and> (exprs ! l) ''en-en'' = Some sb \<and>
    slugify nfkd sa = slugify nfkd sb
    \<longrightarrow> expression_main nfkd exprs = (map println es, None) \<and>
        carries_slug sa (slugify nfkd sa) (es ! k) \<and>
        carries_slug sb (slugify nfkd sa) (es ! l))"
proof (intro conjI impI)
  assume a: "map (verb_flashcard nfkd) verbs = map Inr vs \<and> i < j \<and> j < length verbs \<and>
    (verbs ! i) ''base'' = Some ba \<and> (verbs ! j) ''base'' = Some bb \<and>
    slugify nfkd (codes ''em-irregular-verb-'' @ ba) =
      slugify nfkd (codes ''em-irregular-verb-'' @ bb)"
  then show "irregular_verbs_main nfkd verbs = (map println vs, None)"
    using print_flashcards_all [of "verb_flashcard nfkd" verbs vs "[]"]
    by (simp add: irregular_verbs_main_def)
  from a have fi: "verb_flashcard nfkd (verbs ! i) = Inr (vs ! i)"
    and fj: "verb_flashcard nfkd (verbs ! j) = Inr (vs ! j)"
    by (simp_all add: nth_of_map_Inr)
  from a have bi: "(verbs ! i) ''base'' = Some ba" and bj: "(verbs ! j) ''base'' = Some bb"
    by simp_all
  show "carries_slug ba (slugify nfkd (codes ''em-irregular-verb-'' @ ba)) (vs ! i)"
    using fi bi by (rule verb_flashcard_Inr)
  have "carries_slug bb (slugify nfkd (codes ''em-irregular-verb-'' @ bb)) (vs ! j)"
    using fj bj by (rule verb_flashcard_Inr)
  with a show "carries_slug bb (slugify nfkd (codes ''em-irregular-verb-'' @ ba)) (vs ! j)"
    by simp
next
  assume a: "map (expression_flashcard nfkd) exprs = map Inr es \<and> k < l \<and> l < length exprs \<and>
    (exprs ! k) ''en-en'' = Some sa \<and> (exprs ! l) ''en-en'' = Some sb \<and>
    slugify nfkd sa = slugify nfkd sb"
  then show "expression_main nfkd exprs = (map println es, None)"
    using print_flashcards_all [of "expression_flashcard nfkd" exprs es "[]"]
    by (simp add: expression_main_def)
  from a have fk: "expression_flashcard nfkd (exprs ! k) = Inr (es ! k)"
    and fl: "expression_flashcard nfkd (exprs ! l) = Inr (es ! l)"
    by (simp_all add: nth_of_map_Inr)
  from a have sk: "(exprs ! k) ''en-en'' = Some sa" and sl: "(exprs ! l) ''en-en'' = Some sb"
    by simp_all
  show "carries_slug sa (slugify nfkd sa) (es ! k)"
    using fk sk by (rule expression_flashcard_Inr)
  have "carries_slug sb (slugify nfkd sb) (es ! l)"
    using fl sl by (rule expression_flashcard_Inr)
  with a show "carries_slug sb (slugify nfkd sa) (es ! l)"
    by simp
qed

theorem equal_slugs_are_printed_witness:
  "irregular_verbs_main nfkd_excerpt rock_verbs = (map println rock_verb_flashcards, None) \<and>
   expression_main nfkd_excerpt rock_expressions =
     (map println rock_expression_flashcards, None) \<and>
   carries_slug (codes ''Rock-Solid'') (codes ''rock-solid'') (rock_expression_flashcards ! 0) \<and>
   carries_slug (codes ''rock solid'') (codes ''rock-solid'') (rock_expression_flashcards ! 1)"
  using equal_slugs_are_printed [of nfkd_excerpt rock_verbs rock_verb_flashcards
      0 1 "codes ''Rock-Solid''" "codes ''rock solid''" rock_expressions
      rock_expression_flashcards 0 1 "codes ''Rock-Solid''" "codes ''rock solid''"]
  by (simp add: table_defs flashcard_defs script_defs eval_defs)

theorem equal_slugs_raise_nothing:
  "slugify nfkd_excerpt (codes ''Rock-Solid'') = codes ''rock-solid'' \<and>
   slugify nfkd_excerpt (codes ''rock solid'') = codes ''rock-solid'' \<and>
   expression_main nfkd_excerpt rock_expressions =
     ([println (rock_expression_flashcards ! 0), println (rock_expression_flashcards ! 1)],
      None)"
  by (simp add: table_defs flashcard_defs script_defs eval_defs)

text \<open>
  Claim C4. The slug is a function of the text and of nothing else: equal texts have
  equal slugs, and a script run on a table that lists one record twice writes the same
  flashcard, with the same slug, twice.
\<close>

theorem slugify_deterministic:
  "(ta = tb \<longrightarrow> slugify nfkd ta = slugify nfkd tb) \<and>
   (expression_flashcard nfkd expr = Inr fc \<longrightarrow>
      expression_main nfkd [expr, expr] = ([println fc, println fc], None))"
  by (simp add: expression_main_def)

theorem slugify_deterministic_witness:
  "slugify nfkd_excerpt (codes ''be caught between a rock and a hard place'') =
     codes ''be-caught-between-a-rock-and-a-hard-place'' \<and>
   expression_main nfkd_excerpt (EXPRESSIONS @ EXPRESSIONS) =
     ([println caught_flashcard, println caught_flashcard], None)"
  using slugify_deterministic [of "codes ''be caught between a rock and a hard place''"
      "codes ''be caught between a rock and a hard place''" nfkd_excerpt "hd EXPRESSIONS"
      caught_flashcard]
  by (simp add: table_defs flashcard_defs script_defs eval_defs)

text \<open>
  Claim C5. Where the decomposition leaves ASCII text as it is, as Unicode's does, the
  slug of a slug is that slug.
\<close>

theorem slugify_idempotent:
  assumes "ascii_stable nfkd"
  shows "slugify nfkd (slugify nfkd t) = slugify nfkd t"
proof -
  have "normalize_text nfkd (slugify nfkd t) = slugify nfkd t"
    using slugify_slug_chars assms by (rule normalize_text_slug_chars)
  then have "slugify nfkd (slugify nfkd t) = re_sub (slugify nfkd t)"
    by (simp add: slugify_def)
  then show ?thesis by (simp add: slugify_def re_sub_idem)
qed

theorem slugify_idempotent_witness:
  "slugify nfkd_excerpt (slugify nfkd_excerpt (codes '' Rock_Solid!'')) = codes ''-rock-solid-''"
  using slugify_idempotent [OF nfkd_excerpt_ascii, of "codes '' Rock_Solid!''"]
  by (simp add: eval_defs)

text \<open>
  Claim C6, corrected. Where the decomposition splits U+00EA into e and the combining
  circumflex and leaves the rest of the French phrase as it is, the first line of
  \<^verbatim>\<open>slugify\<close> alone yields \<^verbatim>\<open>etre pris entre le marteau et l'enclume\<close>: the diacritic
  is gone and the apostrophe is still there. The substitution of the second line is what
  turns it, like the spaces, into a hyphen.
\<close>

theorem normalizer_keeps_apostrophe:
  assumes "nfkd marteau_enclume =
           [0x65, 0x302] @ codes ''tre pris entre le marteau et l'enclume''"
  shows "normalize_text nfkd marteau_enclume =
           codes ''etre pris entre le marteau et l'enclume'' \<and>
         slugify nfkd marteau_enclume = codes ''etre-pris-entre-le-marteau-et-l-enclume''"
  using assms
  by (simp add: slugify_def normalize_text_def lower_def encode_ascii_ignore_def codes_def
      char_defs)

theorem normalizer_keeps_apostrophe_witness:
  "normalize_text nfkd_excerpt marteau_enclume =
     codes ''etre pris entre le marteau et l'enclume'' \<and>
   slugify nfkd_excerpt marteau_enclume = codes ''etre-pris-entre-le-marteau-et-l-enclume''"
  using normalizer_keeps_apostrophe [of nfkd_excerpt]
  by (simp add: marteau_enclume_def nfkd_excerpt_def decomposition_def codes_def)

theorem normalizer_makes_no_separator:
  "normalize_text nfkd_excerpt marteau_enclume \<noteq>
     codes ''etre pris entre le marteau et l enclume''"
  by (simp add: table_defs eval_defs)

text \<open>
  Claim C7. When every record of the table has its flashcard, either script writes
  exactly these flashcards, one per record and in the order of the table, and ends
  without an exception.
\<close>

theorem flashcards_in_table_order:
  "(map (verb_flashcard nfkd) verbs = map Inr vs \<longrightarrow>
      irregular_verbs_main nfkd verbs = (map println vs, None)) \<and>
   (map (expression_flashcard nfkd) exprs = map Inr es \<longrightarrow>
      expression_main nfkd exprs = (map println es, None))"
  using print_flashcards_all [of "verb_flashcard nfkd" verbs vs "[]"]
    print_flashcards_all [of "expression_flashcard nfkd" exprs es "[]"]
  by (simp add: irregular_verbs_main_def expression_main_def)

theorem flashcards_in_table_order_witness:
  "irregular_verbs_main nfkd_excerpt three_verbs =
     ([println be_flashcard, println have_flashcard, println go_flashcard], None) \<and>
   expression_main nfkd_excerpt EXPRESSIONS = ([println caught_flashcard], None)"
  using flashcards_in_table_order [of nfkd_excerpt three_verbs
      "[be_flashcard, have_flashcard, go_flashcard]" EXPRESSIONS "[caught_flashcard]"]
  by (simp add: table_defs flashcard_defs script_defs eval_defs)

text \<open>
  Claim C8. The flashcard of a verb that has its three fields opens with the bare base
  form as its title and carries the slug of the base form behind the prefix
  \<^verbatim>\<open>em-irregular-verb-\<close>. For the base form \<^verbatim>\<open>be\<close>, where the decomposition leaves ASCII
  text as it is, that slug is \<^verbatim>\<open>em-irregular-verb-be\<close>.
\<close>

theorem irregular_verb_slug:
  assumes "verb ''base'' = Some b" and "verb ''past_tense'' = Some pt"
    and "verb ''past_participle'' = Some pp"
  shows "(\<exists>fc. verb_flashcard nfkd verb = Inr fc \<and>
            carries_slug b (slugify nfkd (codes ''em-irregular-verb-'' @ b)) fc) \<and>
         (ascii_stable nfkd \<and> b = codes ''be'' \<longrightarrow>
            slugify nfkd (codes ''em-irregular-verb-'' @ b) = codes ''em-irregular-verb-be'')"
proof (intro conjI impI)
  show "\<exists>fc. verb_flashcard nfkd verb = Inr fc \<and>
            carries_slug b (slugify nfkd (codes ''em-irregular-verb-'' @ b)) fc"
    using verb_flashcard_eq [OF assms, of nfkd] by (simp add: carries_slug_def codes_def)
next
  assume a: "ascii_stable nfkd \<and> b = codes ''be''"
  have "list_all is_slug_char (codes ''em-irregular-verb-be'')"
    by (simp add: codes_def char_defs)
  with a have "normalize_text nfkd (codes ''em-irregular-verb-be'') = codes ''em-irregular-verb-be''"
    by (simp add: normalize_text_slug_chars)
  moreover have "re_sub (codes ''em-irregular-verb-be'') = codes ''em-irregular-verb-be''"
    by (simp add: codes_def char_defs)
  moreover have "codes ''em-irregular-verb-'' @ codes ''be'' = codes ''em-irregular-verb-be''"
    by (simp add: codes_def)
  ultimately show "slugify nfkd (codes ''em-irregular-verb-'' @ b) = codes ''em-irregular-verb-be''"
    using a by (simp add: slugify_def)
qed

theorem irregular_verb_slug_witness:
  "(\<exists>fc. verb_flashcard nfkd_excerpt (IRREGULAR_VERBS ! 0) = Inr fc \<and>
      carries_slug (codes ''be'') (codes ''em-irregular-verb-be'') fc) \<and>
   slugify nfkd_excerpt (codes ''em-irregular-verb-be'') = codes ''em-irregular-verb-be''"
  using irregular_verb_slug [of "IRREGULAR_VERBS ! 0" "codes ''be''" "codes ''was/were''"
      "codes ''been''" nfkd_excerpt] nfkd_excerpt_ascii
  by (auto simp: table_defs codes_def)

text \<open>
  Claim C9. The flashcard of a verb that has its three fields ends, after the separator
  line, with the past tense, \<^verbatim>\<open> / \<close> and the past participle as the record holds them;
  for \<^verbatim>\<open>had\<close> and \<^verbatim>\<open>had\<close> that is \<^verbatim>\<open>had / had\<close>.
\<close>

theorem irregular_verb_back:
  assumes "verb ''base'' = Some b" and "verb ''past_tense'' = Some pt"
    and "verb ''past_participle'' = Some pp"
  shows "\<exists>fc. verb_flashcard nfkd verb = Inr fc \<and> ends_with_back (pt @ codes '' / '' @ pp) fc"
  using verb_flashcard_eq [OF assms, of nfkd]
  by (simp add: ends_with_back_def suffix_def codes_def)

theorem irregular_verb_back_witness:
  "\<exists>fc. verb_flashcard nfkd_excerpt (IRREGULAR_VERBS ! 1) = Inr fc \<and>
     ends_with_back (codes ''had / had'') fc"
  using irregular_verb_back [of "IRREGULAR_VERBS ! 1" "codes ''have''" "codes ''had''"
      "codes ''had''" nfkd_excerpt]
  by (simp add: table_defs codes_def)

text \<open>
  Claim C10. Two expressions with the same \<^verbatim>\<open>en-en\<close> phrase, whatever their \<^verbatim>\<open>fr-fr\<close>
  phrases and other fields, have flashcards that carry the same slug, the slug of that
  phrase.
\<close>

theorem expression_slug_from_source:
  assumes "ea ''en-en'' = Some s" and "eb ''en-en'' = Some s"
    and "ea ''fr-fr'' = Some ta" and "eb ''fr-fr'' = Some tb"
  shows "\<exists>fa fb. expression_flashcard nfkd ea = Inr fa \<and> expression_flashcard nfkd eb = Inr fb \<and>
           carries_slug s (slugify nfkd s) fa \<and> carries_slug s (slugify nfkd s) fb"
  using expression_flashcard_eq [OF assms(1,3), of nfkd]
    expression_flashcard_eq [OF assms(2,4), of nfkd]
  by (simp add: carries_slug_def codes_def)

theorem expression_slug_from_source_witness:
  "\<exists>fa fb.
     expression_flashcard nfkd_excerpt (hd EXPRESSIONS) = Inr fa \<and>
     expression_flashcard nfkd_excerpt ((hd EXPRESSIONS)(''fr-fr'' \<mapsto> codes ''entre deux feux'',
         ''note'' \<mapsto> codes ''idiom'')) = Inr fb \<and>
     carries_slug (codes ''be caught between a rock and a hard place'')
       (codes ''be-caught-between-a-rock-and-a-hard-place'') fa \<and>
     carries_slug (codes ''be caught between a rock and a hard place'')
       (codes ''be-caught-between-a-rock-and-a-hard-place'') fb"
  using expression_slug_from_source [of "hd EXPRESSIONS"
      "codes ''be caught between a rock and a hard place''"
      "(hd EXPRESSIONS)(''fr-fr'' \<mapsto> codes ''entre deux feux'', ''note'' \<mapsto> codes ''idiom'')"
      marteau_enclume "codes ''entre deux feux''" nfkd_excerpt]
  by (simp add: table_defs eval_defs)

end
